theory Spec2Isabelle
  imports Complex_Main
begin

section \<open>Numbers\<close>

text \<open>
  A Python float is an IEEE 754 double. It is modelled by the real number that it denotes,
  and every arithmetic operation of the fusion and of the audio score is the exact operation
  followed by \<open>dbl\<close>, the rounding to the nearest double, a tie going to the even
  significand. \<open>float_exponent x\<close> is the binary exponent of \<open>x\<close>, held at \<open>-1022\<close> below the
  normal range (the subnormal numbers share the spacing \<open>2\<^sup>-\<^sup>1\<^sup>0\<^sup>7\<^sup>4\<close>) and at 1023 above it.
  Infinities and NaN are not modelled: a value of magnitude \<open>2\<^sup>1\<^sup>0\<^sup>2\<^sup>4\<close> or more, which Python
  turns into \<open>inf\<close>, is outside the model. A decimal literal \<open>c\<close> of the source is the double
  \<open>dbl c\<close>.

  \<^verbatim>\<open>round(x, n)\<close> rounds the exact value of the double \<open>x\<close> to the nearest multiple of
  \<open>10\<^sup>-\<^sup>n\<close>, a tie going to the even neighbour, and returns the double nearest to that
  decimal; \<open>py_round\<close> gives the decimal itself, which is how Python prints the result.
  The signal processing before the score (frame energies, envelope, thresholds, peak
  search), the vision adapter and the text scorer are kept in exact arithmetic.
\<close>

definition round_half_even :: "real \<Rightarrow> int" where
  "round_half_even x =
     (let f = \<lfloor>x\<rfloor>; d = x - of_int f
      in if d < 1/2 then f else if 1/2 < d then f + 1 else if even f then f else f + 1)"

definition py_round :: "real \<Rightarrow> nat \<Rightarrow> real" where
  "py_round x ndigits = of_int (round_half_even (x * 10 ^ ndigits)) / 10 ^ ndigits"

text \<open>
  The exponent is found by halving or doubling, at most 1023 times upwards and 1022 times
  downwards.
\<close>

fun exp_up :: "nat \<Rightarrow> real \<Rightarrow> nat" where
  "exp_up n x = (if n = 0 \<or> x < 2 then 0 else Suc (exp_up (n - 1) (x / 2)))"

fun exp_down :: "nat \<Rightarrow> real \<Rightarrow> nat" where
  "exp_down n x = (if n = 0 \<or> 1 \<le> x then 0 else Suc (exp_down (n - 1) (2 * x)))"

declare exp_up.simps [simp del] exp_down.simps [simp del]

definition float_exponent :: "real \<Rightarrow> int" where
  "float_exponent x =
     (if 1 \<le> \<bar>x\<bar> then int (exp_up 1023 \<bar>x\<bar>) else - int (exp_down 1022 \<bar>x\<bar>))"

definition dbl :: "real \<Rightarrow> real" where
  "dbl x =
     (if x = 0 then 0
      else let q = 2 powi (float_exponent x - 52)
           in sgn x * (of_int (round_half_even (\<bar>x\<bar> / q)) * q))"

definition fadd :: "real \<Rightarrow> real \<Rightarrow> real" where
  "fadd x y = dbl (x + y)"

definition fmul :: "real \<Rightarrow> real \<Rightarrow> real" where
  "fmul x y = dbl (x * y)"

definition fdiv :: "real \<Rightarrow> real \<Rightarrow> real" where
  "fdiv x y = dbl (x / y)"

section \<open>Fusion (\<^verbatim>\<open>fusion_test.py\<close>, \<^verbatim>\<open>run_fusion\<close>)\<close>

text \<open>
  \<^verbatim>\<open>run_fusion\<close> receives three dictionaries and reads them with \<^verbatim>\<open>.get(key, default)\<close>.
  Each dictionary is a record of the keys that are read; a key that is absent is \<open>None\<close>.
\<close>

record fusion_audio =
  fa_cough_score :: "real option"

record fusion_vision =
  fv_dog_detected :: "bool option"
  fv_dog_conf :: "real option"

record fusion_text =
  ft_severity_score :: "real option"
  ft_keywords :: "string list option"

datatype risk_level = Low | Medium | High

record fusion_out =
  risk_score :: real
  risk_level :: risk_level
  explanation :: "string list"

definition get_or :: "'a option \<Rightarrow> 'a \<Rightarrow> 'a" where
  "get_or v d = (case v of None \<Rightarrow> d | Some x \<Rightarrow> x)"

text \<open>Lines 107 to 109: the three numbers that enter the weighted sum.\<close>

definition fusion_a :: "fusion_audio \<Rightarrow> real" where
  "fusion_a audio = get_or (fa_cough_score audio) 0"

definition fusion_v :: "fusion_vision \<Rightarrow> real" where
  "fusion_v vision =
     (if get_or (fv_dog_detected vision) False then get_or (fv_dog_conf vision) 0 else 0)"

definition fusion_t :: "fusion_text \<Rightarrow> real" where
  "fusion_t txt = get_or (ft_severity_score txt) 0"

text \<open>
  Line 112: the weighted sum in double precision, three products and two sums from left to
  right, before the rounding to three decimals.
\<close>

definition fusion_risk :: "fusion_audio \<Rightarrow> fusion_vision \<Rightarrow> fusion_text \<Rightarrow> real" where
  "fusion_risk audio vision txt =
     fadd (fadd (fmul (dbl 0.6) (fusion_a audio)) (fmul (dbl 0.2) (fusion_v vision)))
       (fmul (dbl 0.2) (fusion_t txt))"

text \<open>Lines 114 to 119: the label of a risk.\<close>

definition fusion_level :: "real \<Rightarrow> risk_level" where
  "fusion_level risk =
     (if risk > dbl 0.5 then High else if risk \<ge> dbl 0.2 then Medium else Low)"

text \<open>\<^verbatim>\<open>', '.join(words)\<close>\<close>

fun join_comma :: "string list \<Rightarrow> string" where
  "join_comma [] = []"
| "join_comma [w] = w"
| "join_comma (w # ws) = w @ '', '' @ join_comma ws"

definition fusion_explanation :: "fusion_audio \<Rightarrow> fusion_vision \<Rightarrow> fusion_text \<Rightarrow> string list" where
  "fusion_explanation audio vision txt =
     (let e1 = (if fusion_a audio \<ge> dbl 0.6 then [''Audio: cough-like events detected.''] else []);
          e2 = (if get_or (fv_dog_detected vision) False
                then e1 @ [''Vision: dog detected in image.''] else e1);
          e3 = (if fusion_t txt > 0
                then e2 @ [''Text: symptoms mentioned ('' @ join_comma (get_or (ft_keywords txt) [])
                             @ '').'']
                else e2)
      in if e3 = [] then [''No strong signals found from inputs.''] else e3)"

definition run_fusion :: "fusion_audio \<Rightarrow> fusion_vision \<Rightarrow> fusion_text \<Rightarrow> fusion_out" where
  "run_fusion audio vision txt =
     \<lparr> risk_score = py_round (fusion_risk audio vision txt) 3,
       risk_level = fusion_level (fusion_risk audio vision txt),
       explanation = fusion_explanation audio vision txt \<rparr>"

text \<open>The dictionaries of a call in which every key is present.\<close>

definition audio_in :: "real \<Rightarrow> fusion_audio" where
  "audio_in a = \<lparr> fa_cough_score = Some a \<rparr>"

definition vision_in :: "bool \<Rightarrow> real \<Rightarrow> fusion_vision" where
  "vision_in d v = \<lparr> fv_dog_detected = Some d, fv_dog_conf = Some v \<rparr>"

definition text_in :: "real \<Rightarrow> string list \<Rightarrow> fusion_text" where
  "text_in t ks = \<lparr> ft_severity_score = Some t, ft_keywords = Some ks \<rparr>"


section \<open>Vision adapter (\<^verbatim>\<open>vision_test.py\<close>, \<^verbatim>\<open>run_vision\<close>)\<close>

text \<open>
  The pretrained detector is outside the repository. Its output is taken as it reaches the
  adapter: the image shape \<open>(h, w)\<close> and one entry per box with the class name, the
  confidence and the corners \<open>x1, y1, x2, y2\<close>.
\<close>

datatype py_error = ZeroDivisionError

record detection =
  det_label :: string
  det_conf :: real
  det_x1 :: real
  det_y1 :: real
  det_x2 :: real
  det_y2 :: real

record vision_out =
  dog_detected :: bool
  dog_conf :: real
  car_conf :: real
  best_area_ratio :: real
  detected :: "(string \<times> real \<times> real) list"

definition DOG_STRONG :: real where "DOG_STRONG = 0.70"
definition DOG_GREY :: real where "DOG_GREY = 0.60"
definition CAR_VETO :: real where "CAR_VETO = 0.60"
definition MIN_AREA_RATIO :: real where "MIN_AREA_RATIO = 0.03"

text \<open>Lines 73 to 75: the area of a box over the area of the image.\<close>

definition area_ratio :: "nat \<Rightarrow> detection \<Rightarrow> real" where
  "area_ratio img_area b =
     max 0 ((det_x2 b - det_x1 b) * (det_y2 b - det_y1 b)) / real img_area"

text \<open>\<^verbatim>\<open>max(values, default=0.0)\<close>\<close>

fun max_default :: "real list \<Rightarrow> real" where
  "max_default [] = 0"
| "max_default (x # xs) = fold max xs x"

text \<open>
  The loop of lines 69 to 83 keeps three accumulators: the list \<open>detected\<close>, the running
  maximum \<open>car_conf\<close> and the list \<open>dog_candidates\<close> of pairs (confidence, area ratio).
\<close>

fun vision_loop ::
  "nat \<Rightarrow> detection list \<Rightarrow> (string \<times> real \<times> real) list \<times> real \<times> (real \<times> real) list
     \<Rightarrow> (string \<times> real \<times> real) list \<times> real \<times> (real \<times> real) list" where
  "vision_loop img_area [] acc = acc"
| "vision_loop img_area (b # bs) (det, car, dogs) =
     (let r = area_ratio img_area b;
          det' = det @ [(det_label b, py_round (det_conf b) 3, py_round r 3)];
          car' = (if det_label b = ''car'' then max car (det_conf b) else car);
          dogs' = (if det_label b = ''dog'' then dogs @ [(det_conf b, r)] else dogs)
      in vision_loop img_area bs (det', car', dogs'))"

text \<open>Lines 89 to 101: the decision on the two maxima and the car veto.\<close>

definition vision_decision :: "real \<Rightarrow> real \<Rightarrow> real \<Rightarrow> bool" where
  "vision_decision dogc best_area carc =
     (let d1 = (if dogc \<ge> DOG_STRONG \<and> best_area \<ge> MIN_AREA_RATIO then True
                else if dogc \<ge> DOG_GREY \<and> best_area \<ge> 0.06 then True
                else False)
      in if carc \<ge> CAR_VETO \<and> dogc < 0.85 then False else d1)"

text \<open>
  Dividing a box area by the area of an image without pixels raises; this happens at the
  first box, so only when there is one.
\<close>

definition run_vision :: "nat \<Rightarrow> nat \<Rightarrow> detection list \<Rightarrow> py_error + vision_out" where
  "run_vision h w boxes =
     (let img_area = w * h
      in if boxes \<noteq> [] \<and> img_area = 0 then Inl ZeroDivisionError
         else
           (case vision_loop img_area boxes ([], 0, []) of (det, carc, dog_candidates) \<Rightarrow>
              let dogc = max_default (map fst dog_candidates);
                  best_area = max_default (map snd dog_candidates)
              in Inr \<lparr> dog_detected = vision_decision dogc best_area carc,
                       dog_conf = py_round dogc 3,
                       car_conf = py_round carc 3,
                       best_area_ratio = py_round best_area 3,
                       detected = det \<rparr>))"

text \<open>
  The rule as the specification words it: \<open>c\<close> is the confidence of the dog detection of
  maximum confidence (the first one, should several share it) and \<open>r\<close> is the area ratio of
  that same detection; both are 0 when there is no dog.
\<close>

fun spec_best_dog :: "(real \<times> real) list \<Rightarrow> real \<times> real" where
  "spec_best_dog [] = (0, 0)"
| "spec_best_dog [p] = p"
| "spec_best_dog (p # ps) = (if fst (spec_best_dog ps) > fst p then spec_best_dog ps else p)"

definition spec_dog_detected :: "nat \<Rightarrow> nat \<Rightarrow> detection list \<Rightarrow> bool" where
  "spec_dog_detected h w boxes =
     (let dogs = filter (\<lambda>b. det_label b = ''dog'') boxes;
          (c, r) = spec_best_dog (map (\<lambda>b. (det_conf b, area_ratio (w * h) b)) dogs);
          carc = max_default (0 # map det_conf (filter (\<lambda>b. det_label b = ''car'') boxes))
      in ((c \<ge> 0.70 \<and> r \<ge> 0.03) \<or> (c \<ge> 0.60 \<and> r \<ge> 0.06))
         \<and> \<not> (carc \<ge> 0.60 \<and> c < 0.85))"

definition mk_box :: "string \<Rightarrow> real \<Rightarrow> real \<Rightarrow> real \<Rightarrow> real \<Rightarrow> real \<Rightarrow> detection" where
  "mk_box l c x1 y1 x2 y2 =
     \<lparr> det_label = l, det_conf = c, det_x1 = x1, det_y1 = y1, det_x2 = x2, det_y2 = y2 \<rparr>"

section \<open>Text scorer (\<^verbatim>\<open>text_prototype.py\<close>, \<^verbatim>\<open>run_text\<close>)\<close>

text \<open>
  An owner note is a \<open>string\<close>, a list of 8-bit characters: the model covers notes written
  in ASCII, where the classes \<^verbatim>\<open>\w\<close> and \<^verbatim>\<open>\s\<close> of Python's \<^verbatim>\<open>re\<close>, \<^verbatim>\<open>str.lower\<close> and
  \<^verbatim>\<open>str.strip\<close> are as below. The typographic apostrophe that the negation patterns also
  accept is not a character of such a note.
\<close>

definition is_word_char :: "char \<Rightarrow> bool" where
  "is_word_char c =
     (let n = (of_char c :: nat)
      in (48 \<le> n \<and> n \<le> 57) \<or> (65 \<le> n \<and> n \<le> 90) \<or> n = 95 \<or> (97 \<le> n \<and> n \<le> 122))"

definition is_space_char :: "char \<Rightarrow> bool" where
  "is_space_char c =
     (let n = (of_char c :: nat) in (9 \<le> n \<and> n \<le> 13) \<or> (28 \<le> n \<and> n \<le> 32))"

definition lower_char :: "char \<Rightarrow> char" where
  "lower_char c =
     (let n = (of_char c :: nat) in if 65 \<le> n \<and> n \<le> 90 then char_of (n + 32) else c)"

definition py_lower :: "string \<Rightarrow> string" where
  "py_lower s = map lower_char s"

definition py_strip :: "string \<Rightarrow> string" where
  "py_strip s = rev (dropWhile is_space_char (rev (dropWhile is_space_char s)))"

text \<open>\<^verbatim>\<open>pat.split()[0]\<close>, for a pattern that has a word in it.\<close>

definition first_token :: "string \<Rightarrow> string" where
  "first_token pat = takeWhile (\<lambda>c. \<not> is_space_char c) (dropWhile is_space_char pat)"

subsection \<open>The regular expressions that the scorer uses\<close>

text \<open>
  The patterns of the source are built from literal text, the word boundary \<^verbatim>\<open>\b\<close>, the
  blank run \<^verbatim>\<open>\s+\<close>, an optional character of a class, sequence and alternative.
  \<open>rmatch r (p, s)\<close> lists the ways in which \<open>r\<close> can match a prefix of \<open>s\<close> when the
  character before \<open>s\<close> is \<open>p\<close>: each way is the last character consumed and the rest.
  \<^verbatim>\<open>re.search\<close> succeeds when some position of the text has such a way.
\<close>

datatype regex =
    Lit string
  | WordB
  | Spaces1
  | OneOf string
  | Opt regex
  | Seq regex regex
  | Alt regex regex

definition word_before :: "char option \<Rightarrow> bool" where
  "word_before p = (case p of None \<Rightarrow> False | Some c \<Rightarrow> is_word_char c)"

definition word_after :: "string \<Rightarrow> bool" where
  "word_after s = (case s of [] \<Rightarrow> False | c # _ \<Rightarrow> is_word_char c)"

fun rmatch :: "regex \<Rightarrow> char option \<times> string \<Rightarrow> (char option \<times> string) list" where
  "rmatch (Lit l) (p, s) =
     (if l = [] then [(p, s)]
      else if take (length l) s = l then [(Some (last l), drop (length l) s)]
      else [])"
| "rmatch WordB (p, s) = (if word_before p \<noteq> word_after s then [(p, s)] else [])"
| "rmatch Spaces1 (p, s) =
     map (\<lambda>j. (Some (s ! (j - 1)), drop j s)) [1..<Suc (length (takeWhile is_space_char s))]"
| "rmatch (OneOf cs) (p, s) =
     (case s of [] \<Rightarrow> [] | c # rest \<Rightarrow> if c \<in> set cs then [(Some c, rest)] else [])"
| "rmatch (Opt r) (p, s) = rmatch r (p, s) @ [(p, s)]"
| "rmatch (Seq r1 r2) (p, s) = concat (map (rmatch r2) (rmatch r1 (p, s)))"
| "rmatch (Alt r1 r2) (p, s) = rmatch r1 (p, s) @ rmatch r2 (p, s)"

fun search_from :: "regex \<Rightarrow> char option \<Rightarrow> string \<Rightarrow> bool" where
  "search_from r p [] = (rmatch r (p, []) \<noteq> [])"
| "search_from r p (c # cs) = (rmatch r (p, c # cs) \<noteq> [] \<or> search_from r (Some c) cs)"

definition re_search :: "regex \<Rightarrow> string \<Rightarrow> bool" where
  "re_search r text = search_from r None text"

text \<open>\<^verbatim>\<open>rf"\b{pat}\b"\<close>\<close>

definition word_pattern :: "string \<Rightarrow> regex" where
  "word_pattern pat = Seq WordB (Seq (Lit pat) WordB)"

text \<open>The five patterns of \<^verbatim>\<open>is_negated\<close>, lines 126 to 132.\<close>

definition apostrophe :: char where
  "apostrophe = CHR 0x27"

definition negation_cues :: "regex list" where
  "negation_cues =
     [Lit ''no'', Lit ''not'', Lit ''without'',
      Seq (Lit ''doesn'') (Seq (Opt (OneOf [apostrophe])) (Lit ''t'')),
      Seq (Lit ''didn'') (Seq (Opt (OneOf [apostrophe])) (Lit ''t''))]"

definition negation_patterns :: "string \<Rightarrow> regex list" where
  "negation_patterns term =
     map (\<lambda>cue. Seq WordB (Seq cue (Seq Spaces1 (Seq (Lit term) WordB)))) negation_cues"

definition is_negated :: "string \<Rightarrow> string \<Rightarrow> bool" where
  "is_negated text term = list_ex (\<lambda>p. re_search p text) (negation_patterns term)"

subsection \<open>Concepts, modifiers and the score\<close>

definition concepts :: "(string \<times> string list) list" where
  "concepts =
     [(''cough'', [''cough'', ''coughing'', ''hacking'', ''hack'']),
      (''gagging'', [''gag'', ''gagging'', ''retch'', ''retching'']),
      (''sneeze'', [''sneeze'', ''sneezing'']),
      (''lethargy'', [''lethargy'', ''lethargic'', ''low energy'', ''tired'', ''fatigue'', ''weak'']),
      (''daycare'', [''daycare'', ''kennel'', ''boarding'', ''grooming'']),
      (''appetite_loss'',
         [''not eating'', ''loss of appetite'', ''no appetite'', ''poor appetite''])]"

definition symptom_concepts :: "string list" where
  "symptom_concepts = [''cough'', ''gagging'', ''sneeze'', ''lethargy'', ''appetite_loss'']"

text \<open>
  The inner loop of lines 150 to 158 over the patterns of one concept; the value is the flag
  \<open>found\<close> when the loop ends. A pattern that matches but whose first word is negated is
  passed over (\<^verbatim>\<open>continue\<close>), the first other match ends the loop (\<^verbatim>\<open>break\<close>).
\<close>

fun scan_patterns :: "string \<Rightarrow> string \<Rightarrow> string list \<Rightarrow> bool" where
  "scan_patterns text concept [] = False"
| "scan_patterns text concept (pat # pats) =
     (if re_search (word_pattern pat) text then
        (if concept \<in> set symptom_concepts \<and> is_negated text (first_token pat)
         then scan_patterns text concept pats
         else True)
      else scan_patterns text concept pats)"

text \<open>
  The outer loop of lines 148 to 160; the accumulator is the list that the source calls
  \<^verbatim>\<open>detected\<close>.
\<close>

fun detect_concepts ::
  "string \<Rightarrow> (string \<times> string list) list \<Rightarrow> string list \<Rightarrow> string list" where
  "detect_concepts text [] found = found"
| "detect_concepts text ((concept, pats) # rest) found =
     detect_concepts text rest
       (if scan_patterns text concept pats then found @ [concept] else found)"

text \<open>\<^verbatim>\<open>list(dict.fromkeys(xs))\<close>: the first occurrence of each element, in order.\<close>

fun dedup_first :: "'a list \<Rightarrow> 'a list" where
  "dedup_first [] = []"
| "dedup_first (x # xs) = x # dedup_first (filter (\<lambda>y. y \<noteq> x) xs)"

text \<open>\<^verbatim>\<open>r"\bw1\b|\bw2\b|..."\<close>\<close>

fun alt_words :: "string list \<Rightarrow> regex" where
  "alt_words [] = Lit []"
| "alt_words [w] = word_pattern w"
| "alt_words (w # ws) = Alt (word_pattern w) (alt_words ws)"

text \<open>The four modifier checks of lines 170 to 186: name, weight and pattern.\<close>

definition modifier_rules :: "(string \<times> real \<times> regex) list" where
  "modifier_rules =
     [(''frequent'', 0.15,
         alt_words [''frequent'', ''often'', ''repeated'', ''many'', ''several'']),
      (''daily/multiple'', 0.15, alt_words [''multiple times'', ''every day'', ''daily'']),
      (''night'', 0.10, alt_words [''at night'', ''night'', ''keeping us up'']),
      (''dry/hacking'', 0.10, alt_words [''dry'', ''hacking'', ''choking''])]"

fun detect_modifiers ::
  "string \<Rightarrow> (string \<times> real \<times> regex) list \<Rightarrow> string list \<times> real \<Rightarrow> string list \<times> real" where
  "detect_modifiers text [] acc = acc"
| "detect_modifiers text ((name, w, r) # rest) (modifiers, intensity) =
     detect_modifiers text rest
       (if re_search r text then (modifiers @ [name], intensity + w) else (modifiers, intensity))"

definition weights :: "(string \<times> real) list" where
  "weights =
     [(''cough'', 0.25), (''gagging'', 0.20), (''sneeze'', 0.10), (''lethargy'', 0.20),
      (''daycare'', 0.10), (''appetite_loss'', 0.25)]"

definition weight_of :: "string \<Rightarrow> real" where
  "weight_of k = get_or (map_of weights k) 0.10"

text \<open>
  The keys \<^verbatim>\<open>"keywords"\<close> and \<^verbatim>\<open>"notes"\<close> of the result are the fields \<open>text_keywords\<close> and
  \<open>text_notes\<close>.
\<close>

record text_out =
  text_keywords :: "string list"
  modifiers_detected :: "string list"
  severity_score :: real
  text_notes :: string

definition run_text :: "string \<Rightarrow> text_out" where
  "run_text owner_note =
     (let text = py_lower (py_strip owner_note)
      in if text = [] then
           \<lparr> text_keywords = [], modifiers_detected = [], severity_score = 0,
             text_notes = ''No owner note provided'' \<rparr>
         else
           (let kws = dedup_first (detect_concepts text concepts []);
                (modifiers, intensity) = detect_modifiers text modifier_rules ([], 0);
                severity = sum_list (map weight_of kws) + intensity
            in \<lparr> text_keywords = kws, modifiers_detected = modifiers,
                 severity_score = min 1 (py_round severity 3),
                 text_notes = ''Rule-based NLP with negation + intensity modifiers (interpretable)'' \<rparr>))"

text \<open>
  The negation rule as the specification words it, occurrence by occurrence: a whole-word
  match of a pattern that starts at position \<open>i\<close> is suppressed when a negation cue and the
  blanks after it end exactly at \<open>i\<close>. \<open>match_span r text k i\<close> says that \<open>r\<close> matches the
  text from position \<open>k\<close> up to position \<open>i\<close>.
\<close>

definition char_before :: "string \<Rightarrow> nat \<Rightarrow> char option" where
  "char_before text i = (if i = 0 then None else Some (text ! (i - 1)))"

definition match_span :: "regex \<Rightarrow> string \<Rightarrow> nat \<Rightarrow> nat \<Rightarrow> bool" where
  "match_span r text k i =
     (k \<le> i \<and> i \<le> length text
      \<and> list_ex (\<lambda>st. length (snd st) = length text - i)
            (rmatch r (char_before text k, drop k text)))"

definition spec_cue_before :: "string \<Rightarrow> nat \<Rightarrow> bool" where
  "spec_cue_before text i =
     list_ex (\<lambda>cue. list_ex (\<lambda>k. match_span (Seq WordB (Seq cue Spaces1)) text k i) [0..<Suc i])
       negation_cues"

definition spec_unnegated_occurrence :: "string \<Rightarrow> string \<Rightarrow> string \<Rightarrow> nat \<Rightarrow> bool" where
  "spec_unnegated_occurrence text concept pat i =
     (i \<le> length text
      \<and> rmatch (word_pattern pat) (char_before text i, drop i text) \<noteq> []
      \<and> \<not> (concept \<in> set symptom_concepts \<and> spec_cue_before text i))"

definition spec_keyword :: "string \<Rightarrow> string \<Rightarrow> bool" where
  "spec_keyword text concept =
     list_ex (\<lambda>(c, pats). c = concept
        \<and> list_ex (\<lambda>pat. list_ex (spec_unnegated_occurrence text concept pat)
                           [0..<Suc (length text)]) pats)
       concepts"

section \<open>Audio detector (\<^verbatim>\<open>audio_test.py\<close>, \<^verbatim>\<open>run_audio\<close>)\<close>

text \<open>
  The decoded file is the list of samples \<open>y\<close> and the sample rate \<open>sr\<close>. Three library
  functions are used on the way: \<^verbatim>\<open>librosa.feature.rms\<close> (frames of 2048 samples every 1024,
  centred, the signal padded with 1024 zeros on each side, one value
  \<open>sqrt(mean(x\<^sup>2))\<close> per frame), \<^verbatim>\<open>np.convolve(..., mode="same")\<close> (the full convolution cut
  to the longer length around its centre) and \<^verbatim>\<open>np.median\<close>.
\<close>

definition frame_length :: nat where "frame_length = 2048"
definition hop_length :: nat where "hop_length = 1024"

definition librosa_rms :: "real list \<Rightarrow> real list" where
  "librosa_rms y =
     (let padded = replicate (frame_length div 2) 0 @ y @ replicate (frame_length div 2) 0;
          n_frames = 1 + (length padded - frame_length) div hop_length
      in map (\<lambda>i. sqrt (sum_list (map (\<lambda>x. \<bar>x\<bar>\<^sup>2) (take frame_length (drop (i * hop_length) padded)))
                         / real frame_length))
           [0..<n_frames])"

definition np_convolve_full :: "real list \<Rightarrow> real list \<Rightarrow> real list" where
  "np_convolve_full a v =
     map (\<lambda>k. \<Sum>j\<leftarrow>[0..<length a]. if j \<le> k \<and> k - j < length v then a ! j * v ! (k - j) else 0)
       [0..<length a + length v - 1]"

definition np_convolve_same :: "real list \<Rightarrow> real list \<Rightarrow> real list" where
  "np_convolve_same a v =
     take (max (length a) (length v))
       (drop ((min (length a) (length v) - 1) div 2) (np_convolve_full a v))"

text \<open>
  The median of a list that is not empty; the smoothed envelope has five values or more,
  so the median of no value at all, which numpy answers with \<^verbatim>\<open>nan\<close>, is never asked for.
\<close>

definition np_median :: "real list \<Rightarrow> real" where
  "np_median xs =
     (let s = sort xs; n = length xs
      in if n = 0 then 0
         else if odd n then s ! (n div 2)
         else (s ! (n div 2 - 1) + s ! (n div 2)) / 2)"

text \<open>
  \<^verbatim>\<open>detect_peaks\<close>, lines 120 to 131: the loop over \<open>i\<close> in \<^verbatim>\<open>range(1, len(rms_smooth) - 1)\<close>
  with the list \<open>peaks\<close> as accumulator.
\<close>

fun detect_loop :: "real list \<Rightarrow> nat \<Rightarrow> real \<Rightarrow> nat list \<Rightarrow> nat list \<Rightarrow> nat list" where
  "detect_loop rms_smooth min_distance_frames thr [] peaks = peaks"
| "detect_loop rms_smooth min_distance_frames thr (i # rest) peaks =
     (let is_peak = (rms_smooth ! i > thr \<and> rms_smooth ! i > rms_smooth ! (i - 1)
                     \<and> rms_smooth ! i > rms_smooth ! (i + 1))
      in if is_peak \<and> (length peaks = 0 \<or> i - last peaks \<ge> min_distance_frames)
         then detect_loop rms_smooth min_distance_frames thr rest (peaks @ [i])
         else detect_loop rms_smooth min_distance_frames thr rest peaks)"

definition detect_peaks :: "real list \<Rightarrow> nat \<Rightarrow> real \<Rightarrow> nat list" where
  "detect_peaks rms_smooth min_distance_frames thr =
     detect_loop rms_smooth min_distance_frames thr [1..<length rms_smooth - 1] []"

text \<open>
  Lines 140 to 144: the thresholds are tried in turn, the first list of peaks that is not
  empty is kept, and the last list (an empty one) when none is.
\<close>

fun try_thresholds :: "real list \<Rightarrow> nat \<Rightarrow> real list \<Rightarrow> nat list \<Rightarrow> nat list" where
  "try_thresholds rms_smooth min_distance_frames [] peak_indices = peak_indices"
| "try_thresholds rms_smooth min_distance_frames (thr # thrs) peak_indices =
     (let found = detect_peaks rms_smooth min_distance_frames thr
      in if length found > 0 then found
         else try_thresholds rms_smooth min_distance_frames thrs found)"

definition min_event_distance_s :: real where "min_event_distance_s = 0.5"

definition min_distance_frames_of :: "nat \<Rightarrow> nat" where
  "min_distance_frames_of sr = nat \<lfloor>min_event_distance_s * real sr / real hop_length\<rfloor>"

definition rms_smooth_of :: "real list \<Rightarrow> real list" where
  "rms_smooth_of y = np_convolve_same (librosa_rms y) (replicate 5 (1 / 5))"

text \<open>
  Lines 113 to 144, from the smoothed envelope on: the robust statistics, the three
  thresholds and the search for peaks.
\<close>

definition peaks_from_smooth :: "real list \<Rightarrow> nat \<Rightarrow> nat list" where
  "peaks_from_smooth rms_smooth sr =
     (let med = np_median rms_smooth;
          mad = np_median (map (\<lambda>x. \<bar>x - med\<bar>) rms_smooth) + 1 / 10 ^ 9;
          thresholds = [med + 10 * mad, med + 8 * mad, med + 6 * mad]
      in try_thresholds rms_smooth (min_distance_frames_of sr) thresholds [])"

definition peak_indices_of :: "real list \<Rightarrow> nat \<Rightarrow> nat list" where
  "peak_indices_of y sr = peaks_from_smooth (rms_smooth_of y) sr"

text \<open>
  Lines 152 to 165: the score of \<open>num_events\<close> events in \<open>duration_s\<close> seconds, in double
  precision.
\<close>

definition audio_score :: "nat \<Rightarrow> real \<Rightarrow> real" where
  "audio_score num_events duration_s =
     (let events_per_10s =
            fdiv (real num_events) (max (dbl (1 / 10 ^ 9)) (fdiv duration_s 10));
          rate_score = min 1 (fdiv events_per_10s 6);
          count_score = min 1 (fdiv (real num_events) 25);
          raw_score = min 1 (fadd (fmul 0.5 rate_score) (fmul 0.5 count_score))
      in if num_events < 4 then fmul raw_score (dbl 0.4) else raw_score)"

record audio_out =
  cough_score :: real
  events :: nat
  timestamps :: "real list"

text \<open>
  The sample rate divides twice; with numpy arrays the first division only warns, the second
  one, \<^verbatim>\<open>len(y) / sr\<close>, raises when the rate is zero.
\<close>

definition run_audio :: "real list \<Rightarrow> nat \<Rightarrow> py_error + audio_out" where
  "run_audio y sr =
     (let peak_indices = peak_indices_of y sr;
          cough_timestamps =
            map (\<lambda>p. py_round (real (p * hop_length) / real sr) 2) peak_indices;
          num_events = length cough_timestamps
      in if sr = 0 then Inl ZeroDivisionError
         else Inr \<lparr> cough_score =
                      py_round (audio_score num_events (fdiv (real (length y)) (real sr))) 3,
                    events = num_events,
                    timestamps = cough_timestamps \<rparr>)"

text \<open>
  The score as the specification words it, evaluated in double precision: no guard on the
  division and no rounding to three decimals.
\<close>

definition spec_audio_score :: "nat \<Rightarrow> real \<Rightarrow> real" where
  "spec_audio_score n d =
     (let s = fadd (fmul 0.5 (min 1 (fdiv (fdiv (real n) (fdiv d 10)) 6)))
                   (fmul 0.5 (min 1 (fdiv (real n) 25)))
      in if n < 4 then fmul s (dbl 0.4) else s)"

text \<open>
  Test signals: \<open>blocks cs\<close> has one block of 1024 samples for each number \<open>c\<close> of \<open>cs\<close>, the
  first \<open>c\<close> samples of the block being 1 and the others 0. \<open>two_bursts\<close> is 40 blocks, less
  than a second of audio at 44100 Hz, silent but for two short bursts of clicks.
\<close>

definition block :: "nat \<Rightarrow> real list" where
  "block c = replicate c 1 @ replicate (hop_length - c) 0"

definition blocks :: "nat list \<Rightarrow> real list" where
  "blocks cs = concat (map block cs)"

definition two_bursts :: "real list" where
  "two_bursts =
     blocks [0, 0, 2, 16, 16, 2, 0, 0, 0, 0, 0, 0, 0, 0, 0, 0, 0, 0, 0, 0,
             0, 0, 0, 2, 16, 16, 2, 0, 0, 0, 0, 0, 0, 0, 0, 0, 0, 0, 0, 0]"

text \<open>The frame energies of \<open>two_bursts\<close> and its smoothed envelope, 41 frames each.\<close>

definition two_bursts_rms :: "real list" where
  "two_bursts_rms =
     [0, 0, 1/32, 3/32, 1/8, 3/32, 1/32, 0, 0, 0, 0, 0, 0, 0, 0, 0, 0, 0, 0, 0, 0,
      0, 0, 1/32, 3/32, 1/8, 3/32, 1/32, 0, 0, 0, 0, 0, 0, 0, 0, 0, 0, 0, 0, 0]"

definition two_bursts_smooth :: "real list" where
  "two_bursts_smooth = map (\<lambda>n. n / 160)
     [1, 4, 8, 11, 12, 11, 8, 4, 1, 0, 0, 0, 0, 0, 0, 0, 0, 0, 0, 0, 0,
      1, 4, 8, 11, 12, 11, 8, 4, 1, 0, 0, 0, 0, 0, 0, 0, 0, 0, 0, 0]"

section \<open>Results about the numbers\<close>

subsection \<open>Rounding to an integer\<close>

lemma round_half_even_mono:
  assumes "x \<le> y"
  shows "round_half_even x \<le> round_half_even y"
proof (cases "\<lfloor>x\<rfloor> = \<lfloor>y\<rfloor>")
  case True
  with assms have "x - of_int \<lfloor>x\<rfloor> \<le> y - of_int \<lfloor>y\<rfloor>"
    by simp
  with True show ?thesis
    by (simp add: round_half_even_def Let_def)
next
  case False
  with assms have less: "\<lfloor>x\<rfloor> + 1 \<le> \<lfloor>y\<rfloor>"
    using floor_mono [OF assms] by linarith
  have "round_half_even x \<le> \<lfloor>x\<rfloor> + 1"
    by (simp add: round_half_even_def Let_def)
  moreover have "\<lfloor>y\<rfloor> \<le> round_half_even y"
    by (simp add: round_half_even_def Let_def)
  ultimately show ?thesis
    using less by linarith
qed

lemma py_round_mono:
  assumes "x \<le> y"
  shows "py_round x n \<le> py_round y n"
proof -
  have "x * 10 ^ n \<le> y * 10 ^ n"
    using assms by (simp add: mult_right_mono)
  then have "round_half_even (x * 10 ^ n) \<le> round_half_even (y * 10 ^ n)"
    by (rule round_half_even_mono)
  then show ?thesis
    by (simp add: py_round_def divide_right_mono)
qed


lemma round_half_even_of_int: "round_half_even (of_int k) = k"
  by (simp add: round_half_even_def)

lemma round_half_even_nonneg: "0 \<le> x \<Longrightarrow> 0 \<le> round_half_even x"
  using round_half_even_mono [of 0 x] round_half_even_of_int [of 0] by simp

subsection \<open>The binary exponent\<close>

lemma exp_up_spec:
  assumes "1 \<le> x"
  shows "2 ^ exp_up n x \<le> x \<and> exp_up n x \<le> n \<and> (x < 2 ^ Suc (exp_up n x) \<or> exp_up n x = n)"
  using assms
proof (induction n x rule: exp_up.induct)
  case (1 n x)
  show ?case
  proof (cases "n = 0 \<or> x < 2")
    case True
    then have "exp_up n x = 0"
      by (simp add: exp_up.simps)
    with True "1.prems" show ?thesis
      by auto
  next
    case False
    then have step: "exp_up n x = Suc (exp_up (n - 1) (x / 2))"
      by (simp add: exp_up.simps)
    from False have "1 \<le> x / 2"
      by simp
    with False have ih: "2 ^ exp_up (n - 1) (x / 2) \<le> x / 2 \<and> exp_up (n - 1) (x / 2) \<le> n - 1
        \<and> (x / 2 < 2 ^ Suc (exp_up (n - 1) (x / 2)) \<or> exp_up (n - 1) (x / 2) = n - 1)"
      by (intro "1.IH") simp_all
    with False show ?thesis
      unfolding step by auto
  qed
qed

lemma exp_down_spec:
  assumes "0 < x" and "x < 2"
  shows "exp_down n x \<le> n \<and> x * 2 ^ exp_down n x < 2
    \<and> (1 \<le> x * 2 ^ exp_down n x \<or> exp_down n x = n)"
  using assms
proof (induction n x rule: exp_down.induct)
  case (1 n x)
  show ?case
  proof (cases "n = 0 \<or> 1 \<le> x")
    case True
    then have "exp_down n x = 0"
      by (simp add: exp_down.simps)
    with True "1.prems" show ?thesis
      by auto
  next
    case False
    then have step: "exp_down n x = Suc (exp_down (n - 1) (2 * x))"
      by (simp add: exp_down.simps)
    from False "1.prems" have "0 < 2 * x" "2 * x < 2"
      by simp_all
    with False have ih: "exp_down (n - 1) (2 * x) \<le> n - 1
        \<and> 2 * x * 2 ^ exp_down (n - 1) (2 * x) < 2
        \<and> (1 \<le> 2 * x * 2 ^ exp_down (n - 1) (2 * x) \<or> exp_down (n - 1) (2 * x) = n - 1)"
      by (intro "1.IH") simp_all
    with False show ?thesis
      unfolding step by (auto simp: mult.assoc mult.left_commute)
  qed
qed

text \<open>
  The exponent \<open>e\<close> of a positive number lies between \<open>-1022\<close> and 1023, with
  \<open>2\<^sup>e \<le> x\<close> unless it is held at the bottom and \<open>x < 2\<^sup>e\<^sup>+\<^sup>1\<close> unless it is held at the top.
\<close>

lemma float_exponent_bounds:
  assumes "0 < x"
  shows "- 1022 \<le> float_exponent x \<and> float_exponent x \<le> 1023
    \<and> (2 powi float_exponent x \<le> x \<or> float_exponent x = - 1022)
    \<and> (x < 2 powi (float_exponent x + 1) \<or> float_exponent x = 1023)"
proof (cases "1 \<le> x")
  case True
  define k where "k = exp_up 1023 x"
  have e: "float_exponent x = int k"
    using True assms by (simp add: float_exponent_def k_def)
  have spec: "2 ^ k \<le> x" "k \<le> 1023" "x < 2 ^ Suc k \<or> k = 1023"
    using exp_up_spec [OF True, of 1023] by (simp_all add: k_def)
  have "2 powi (int k + 1) = (2::real) ^ Suc k"
    by (simp add: power_int_add)
  then show ?thesis
    using spec by (auto simp: e)
next
  case False
  define k where "k = exp_down 1022 x"
  have e: "float_exponent x = - int k"
    using False assms by (simp add: float_exponent_def k_def)
  have spec: "k \<le> 1022" "x * 2 ^ k < 2" "1 \<le> x * 2 ^ k \<or> k = 1022"
    using exp_down_spec [of x 1022] False assms by (simp_all add: k_def)
  have p: "2 powi (- int k) = 1 / (2::real) ^ k"
    by (simp add: power_int_minus_divide)
  have "(2::real) powi (- int k + 1) = 2 powi (- int k) * 2 powi 1"
    by (rule power_int_add) simp
  then have p1: "2 powi (- int k + 1) = 2 / (2::real) ^ k"
    by (simp only: p power_int_1_right)
  have low: "2 powi (- int k) \<le> x \<or> k = 1022"
    using spec(3) by (auto simp: p field_simps)
  have "x < 2 / 2 ^ k"
    using spec(2) by (simp add: field_simps)
  then have up: "x < 2 powi (- int k + 1)"
    by (simp only: p1)
  show ?thesis
    using spec(1) low up by (auto simp: e)
qed

lemma float_exponent_spec:
  assumes "0 < x"
  shows "- 1022 \<le> float_exponent x" and "float_exponent x \<le> 1023"
    and "2 powi float_exponent x \<le> x \<or> float_exponent x = - 1022"
    and "x < 2 powi (float_exponent x + 1) \<or> float_exponent x = 1023"
  using float_exponent_bounds [OF assms] by blast+

lemma float_exponent_minus: "float_exponent (- x) = float_exponent x"
  by (simp add: float_exponent_def)

subsection \<open>Rounding to a double\<close>

lemma dbl_pos:
  assumes "0 < x"
  shows "dbl x = of_int (round_half_even (x / 2 powi (float_exponent x - 52)))
                   * 2 powi (float_exponent x - 52)"
  using assms by (simp add: dbl_def Let_def)

lemma dbl_0: "dbl 0 = 0"
  by (simp add: dbl_def)

lemma dbl_minus: "dbl (- x) = - dbl x"
  by (simp add: dbl_def float_exponent_minus Let_def)

lemma dbl_nonneg:
  assumes "0 \<le> x"
  shows "0 \<le> dbl x"
proof (cases "x = 0")
  case True
  then show ?thesis by (simp add: dbl_0)
next
  case False
  with assms have "0 < x" by simp
  then show ?thesis
    by (simp add: dbl_pos round_half_even_nonneg)
qed

lemma dbl_lower:
  assumes "0 < x" and "2 powi float_exponent x \<le> x"
  shows "2 powi float_exponent x \<le> dbl x"
proof -
  define e where "e = float_exponent x"
  define q :: real where "q = 2 powi (e - 52)"
  have q: "0 < q" by (simp add: q_def)
  have eq: "2 powi e = 2 ^ 52 * q"
    by (simp add: q_def power_int_diff)
  have "2 ^ 52 * q \<le> x"
    using assms(2) by (simp only: e_def [symmetric] eq)
  then have "of_int (2 ^ 52) \<le> x / q"
    using q by (simp add: pos_le_divide_eq)
  then have "2 ^ 52 \<le> round_half_even (x / q)"
    using round_half_even_mono [of "of_int (2 ^ 52)" "x / q"]
    by (simp only: round_half_even_of_int)
  then have "(of_int (2 ^ 52) :: real) \<le> of_int (round_half_even (x / q))"
    by (simp only: of_int_le_iff)
  then have "(2 ^ 52 :: real) \<le> of_int (round_half_even (x / q))"
    by simp
  then have "2 ^ 52 * q \<le> of_int (round_half_even (x / q)) * q"
    using q by (simp add: mult_right_mono)
  then show ?thesis
    using assms(1) by (simp add: dbl_pos e_def [symmetric] q_def [symmetric] eq)
qed

lemma dbl_upper:
  assumes "0 < x" and "x < 2 powi (float_exponent x + 1)"
  shows "dbl x \<le> 2 powi (float_exponent x + 1)"
proof -
  define e where "e = float_exponent x"
  define q :: real where "q = 2 powi (e - 52)"
  have q: "0 < q" by (simp add: q_def)
  have eq: "2 powi (e + 1) = 2 ^ 53 * q"
    by (simp add: q_def power_int_diff power_int_add)
  have "x < 2 ^ 53 * q"
    using assms(2) by (simp only: e_def [symmetric] eq)
  then have "x / q \<le> of_int (2 ^ 53)"
    using q by (simp add: pos_divide_le_eq)
  then have "round_half_even (x / q) \<le> 2 ^ 53"
    using round_half_even_mono [of "x / q" "of_int (2 ^ 53)"]
    by (simp only: round_half_even_of_int)
  then have "of_int (round_half_even (x / q)) \<le> (of_int (2 ^ 53) :: real)"
    by (simp only: of_int_le_iff)
  then have "of_int (round_half_even (x / q)) \<le> (2 ^ 53 :: real)"
    by simp
  then have "of_int (round_half_even (x / q)) * q \<le> 2 ^ 53 * q"
    using q by (simp add: mult_right_mono)
  then show ?thesis
    using assms(1) by (simp add: dbl_pos e_def [symmetric] q_def [symmetric] eq)
qed

lemma dbl_mono_pos:
  assumes "0 < x" and "x \<le> y"
  shows "dbl x \<le> dbl y"
proof -
  have y: "0 < y" using assms by simp
  note sx = float_exponent_spec [OF assms(1)]
  note sy = float_exponent_spec [OF y]
  consider "float_exponent x = float_exponent y" | "float_exponent x < float_exponent y"
    | "float_exponent y < float_exponent x"
    by linarith
  then show ?thesis
  proof cases
    case 1
    define q :: real where "q = 2 powi (float_exponent y - 52)"
    have q: "0 < q" by (simp add: q_def)
    have "x / q \<le> y / q"
      using assms(2) q by (simp add: divide_right_mono)
    then have "round_half_even (x / q) \<le> round_half_even (y / q)"
      by (rule round_half_even_mono)
    then have "of_int (round_half_even (x / q)) * q \<le> of_int (round_half_even (y / q)) * q"
      using q by (simp add: mult_right_mono)
    then show ?thesis
      using assms(1) y 1 by (simp add: dbl_pos q_def)
  next
    case 2
    have "dbl x \<le> 2 powi (float_exponent x + 1)"
      using sx(4) sy(2) 2 by (intro dbl_upper assms(1)) auto
    also have "\<dots> \<le> 2 powi float_exponent y"
      using 2 by (intro power_int_increasing) simp_all
    also have "\<dots> \<le> dbl y"
      using sy(3) sx(1) 2 by (intro dbl_lower y) auto
    finally show ?thesis .
  next
    case 3
    have "y < 2 powi (float_exponent y + 1)"
      using sy(4) sx(2) 3 by auto
    also have "\<dots> \<le> 2 powi float_exponent x"
      using 3 by (intro power_int_increasing) simp_all
    also have "\<dots> \<le> x"
      using sx(3) sy(1) 3 by auto
    finally show ?thesis
      using assms(2) by simp
  qed
qed

text \<open>Rounding to the nearest double is monotone.\<close>

lemma dbl_mono:
  assumes "x \<le> y"
  shows "dbl x \<le> dbl y"
proof -
  consider "0 < x" | "x \<le> 0" "0 \<le> y" | "y < 0"
    using assms by linarith
  then show ?thesis
  proof cases
    case 1
    then show ?thesis using assms by (rule dbl_mono_pos)
  next
    case 2
    have "dbl x = - dbl (- x)"
      by (simp add: dbl_minus)
    moreover have "0 \<le> dbl (- x)"
      using 2(1) by (intro dbl_nonneg) simp
    moreover have "0 \<le> dbl y"
      using 2(2) by (rule dbl_nonneg)
    ultimately show ?thesis by linarith
  next
    case 3
    then have "dbl (- y) \<le> dbl (- x)"
      using assms by (intro dbl_mono_pos) simp_all
    then show ?thesis
      by (simp add: dbl_minus)
  qed
qed

lemma dbl_idem_pos:
  assumes "0 < x"
  shows "dbl (dbl x) = dbl x"
proof (cases "dbl x = 0")
  case True
  then show ?thesis by (simp add: dbl_0)
next
  case False
  define y where "y = dbl x"
  define e where "e = float_exponent x"
  define e' where "e' = float_exponent y"
  define q :: real where "q = 2 powi (e - 52)"
  define m where "m = round_half_even (x / q)"
  have y: "0 < y"
    using False dbl_nonneg [of x] assms by (simp add: y_def)
  have q: "0 < q" by (simp add: q_def)
  have ymq: "y = of_int m * q"
    using assms by (simp add: y_def dbl_pos e_def q_def m_def)
  note sx = float_exponent_spec [OF assms, folded e_def]
  note sy = float_exponent_spec [OF y, folded e'_def]
  have le: "e \<le> e'"
  proof (rule ccontr)
    assume "\<not> e \<le> e'"
    then have lt: "e' < e" by simp
    with sy(1) have "e \<noteq> - 1022" by simp
    with sx(3) have "2 powi e \<le> x" by simp
    then have "2 powi e \<le> y"
      unfolding y_def e_def by (rule dbl_lower [OF assms])
    moreover have "y < 2 powi (e' + 1)"
      using sy(4) sx(2) lt by auto
    moreover have "(2::real) powi (e' + 1) \<le> 2 powi e"
      using lt by (intro power_int_increasing) simp_all
    ultimately show False by simp
  qed
  have dy: "dbl y = of_int (round_half_even (y / 2 powi (e' - 52))) * 2 powi (e' - 52)"
    using y by (simp add: dbl_pos e'_def)
  show ?thesis
  proof (cases "e' = e")
    case True
    have "y / q = of_int m"
      using q by (simp add: ymq)
    then show ?thesis
      using dy True by (simp add: y_def [symmetric] q_def [symmetric] round_half_even_of_int ymq)
  next
    case False
    with le have lt: "e < e'" by simp
    with sy(2) have "e \<noteq> 1023" by simp
    with sx(4) have "x < 2 powi (e + 1)" by simp
    then have up: "y \<le> 2 powi (e + 1)"
      unfolding y_def e_def by (rule dbl_upper [OF assms])
    from lt sx(1) have "e' \<noteq> - 1022" by simp
    with sy(3) have low: "2 powi e' \<le> y" by simp
    have "(2::real) powi (e + 1) \<le> 2 powi e'"
      using lt by (intro power_int_increasing) simp_all
    with up low have yp: "y = 2 powi e'" by simp
    have "y / 2 powi (e' - 52) = of_int (2 ^ 52)"
      by (simp add: yp power_int_diff)
    then have "round_half_even (y / 2 powi (e' - 52)) = 2 ^ 52"
      by (simp only: round_half_even_of_int)
    then have "dbl y = 2 ^ 52 * 2 powi (e' - 52)"
      using dy by simp
    also have "\<dots> = y"
      by (simp add: yp power_int_diff)
    finally show ?thesis
      by (simp add: y_def)
  qed
qed

text \<open>A double is its own rounding.\<close>

lemma dbl_idem: "dbl (dbl x) = dbl x"
proof -
  consider "0 < x" | "x = 0" | "x < 0" by linarith
  then show ?thesis
  proof cases
    case 1
    then show ?thesis by (rule dbl_idem_pos)
  next
    case 2
    then show ?thesis by (simp add: dbl_0)
  next
    case 3
    then have "dbl (dbl (- x)) = dbl (- x)"
      by (intro dbl_idem_pos) simp
    then show ?thesis
      by (simp add: dbl_minus)
  qed
qed

lemma dbl_1: "dbl 1 = 1"
  by code_simp

lemma dbl_half: "dbl 0.5 = 0.5"
  by code_simp

lemma dbl_two_tenths: "0.2 < dbl 0.2"
  by code_simp

text \<open>For a double, being at least the literal \<open>0.2\<close> is being at least the number 0.2.\<close>

lemma double_ge_two_tenths:
  assumes "dbl r = r"
  shows "dbl 0.2 \<le> r \<longleftrightarrow> 0.2 \<le> r"
proof
  assume "dbl 0.2 \<le> r"
  with dbl_two_tenths show "0.2 \<le> r" by simp
next
  assume "0.2 \<le> r"
  then have "dbl 0.2 \<le> dbl r" by (rule dbl_mono)
  with assms show "dbl 0.2 \<le> r" by simp
qed

section \<open>Results about the fusion\<close>

lemma fusion_risk_present:
  "fusion_risk (audio_in a) (vision_in d v) (text_in t ks)
     = fadd (fadd (fmul (dbl 0.6) a) (fmul (dbl 0.2) (if d then v else 0))) (fmul (dbl 0.2) t)"
  by (simp add: fusion_risk_def fusion_a_def fusion_v_def fusion_t_def get_or_def
      audio_in_def vision_in_def text_in_def)

text \<open>The risk that \<^verbatim>\<open>run_fusion\<close> computes is a double.\<close>

lemma fusion_risk_double: "dbl (fusion_risk audio vision txt) = fusion_risk audio vision txt"
  by (simp add: fusion_risk_def fadd_def dbl_idem)

lemma run_fusion_fields:
  "risk_score (run_fusion audio vision txt) = py_round (fusion_risk audio vision txt) 3"
  "risk_level (run_fusion audio vision txt) = fusion_level (fusion_risk audio vision txt)"
  by (simp_all add: run_fusion_def)

lemma fusion_level_thresholds:
  assumes "dbl r = r"
  shows "fusion_level r = (if r > 0.5 then High else if r \<ge> 0.2 then Medium else Low)"
  unfolding fusion_level_def dbl_half double_ge_two_tenths [OF assms] by (rule refl)


lemma fusion_level_literals:
  "fusion_level 0.5 = Medium" "fusion_level (dbl 0.2) = Medium"
  "fusion_level (dbl 0.19999) = Low"
  by (code_simp, code_simp, code_simp)

lemma fmul_mono:
  assumes "0 \<le> c" and "x \<le> y"
  shows "fmul c x \<le> fmul c y"
  unfolding fmul_def using assms by (intro dbl_mono mult_left_mono)

lemma fadd_mono:
  assumes "x \<le> x'" and "y \<le> y'"
  shows "fadd x y \<le> fadd x' y'"
  unfolding fadd_def using assms by (intro dbl_mono add_mono)

lemma fusion_risk_mono:
  assumes "a \<le> a'" and "v \<le> v'" and "t \<le> t'"
  shows "fusion_risk (audio_in a) (vision_in d v) (text_in t ks)
           \<le> fusion_risk (audio_in a') (vision_in d v') (text_in t' ks)"
proof -
  have c6: "0 \<le> dbl 0.6" and c2: "0 \<le> dbl 0.2"
    by (simp_all add: dbl_nonneg)
  have "(if d then v else 0) \<le> (if d then v' else 0)"
    using assms(2) by simp
  then show ?thesis
    unfolding fusion_risk_present
    by (intro fadd_mono fmul_mono c6 c2 assms(1) assms(3))
qed

text \<open>
  Some sums in double precision. The first three land on the label boundaries; in the last
  three the double precision sum and the exact sum fall on different sides of one.
\<close>

lemma fusion_sum_half:
  "fadd (fadd (fmul (dbl 0.6) 0.5) (fmul (dbl 0.2) 0.5)) (fmul (dbl 0.2) 0.5) = 0.5"
  by code_simp

lemma fusion_sum_one:
  "0.5 < fadd (fadd (fmul (dbl 0.6) 1) (fmul (dbl 0.2) 0)) (fmul (dbl 0.2) 0)"
  by code_simp

lemma fusion_sum_below_two_tenths:
  "fadd (fadd (fmul (dbl 0.6) 0.125) (fmul (dbl 0.2) 0.5)) (fmul (dbl 0.2) 0.125)
     = dbl 0.19999999999999998
   \<and> dbl 0.19999999999999998 < 0.2"
  by code_simp

lemma fusion_sum_above_half:
  "0.5 < fadd (fadd (fmul (dbl 0.6) (dbl 0.45)) (fmul (dbl 0.2) (dbl 0.9))) (fmul (dbl 0.2) 0.25)"
  by code_simp



text \<open>
  C1. For every audio score \<open>a\<close>, vision output (flag \<open>d\<close>, confidence \<open>v\<close>) and text severity
  \<open>t\<close>, \<^verbatim>\<open>run_fusion\<close> computes the risk \<open>0.6 a + 0.2 (v if d else 0) + 0.2 t\<close>, in double
  precision, and labels it High exactly when the risk is above 0.5, Medium exactly when it
  lies in \<open>[0.2, 0.5]\<close>, and Low otherwise (exactly when it is below 0.2). A risk of 0.5 and
  a risk of 0.2 are Medium, a risk of 0.19999 is Low.
\<close>

theorem C1_fusion_label:
  fixes a v t :: real and d :: bool and ks :: "string list"
  shows "fusion_risk (audio_in a) (vision_in d v) (text_in t ks)
           = fadd (fadd (fmul (dbl 0.6) a) (fmul (dbl 0.2) (if d then v else 0)))
               (fmul (dbl 0.2) t)
    \<and> (risk_level (run_fusion (audio_in a) (vision_in d v) (text_in t ks)) = High
           \<longleftrightarrow> fusion_risk (audio_in a) (vision_in d v) (text_in t ks) > 0.5)
    \<and> (risk_level (run_fusion (audio_in a) (vision_in d v) (text_in t ks)) = Medium
           \<longleftrightarrow> 0.2 \<le> fusion_risk (audio_in a) (vision_in d v) (text_in t ks)
               \<and> fusion_risk (audio_in a) (vision_in d v) (text_in t ks) \<le> 0.5)
    \<and> (risk_level (run_fusion (audio_in a) (vision_in d v) (text_in t ks)) = Low
           \<longleftrightarrow> fusion_risk (audio_in a) (vision_in d v) (text_in t ks) < 0.2)
    \<and> fusion_level 0.5 = Medium \<and> fusion_level (dbl 0.2) = Medium
    \<and> fusion_level (dbl 0.19999) = Low"
proof -
  have "risk_level (run_fusion (audio_in a) (vision_in d v) (text_in t ks))
      = (if fusion_risk (audio_in a) (vision_in d v) (text_in t ks) > 0.5 then High
         else if fusion_risk (audio_in a) (vision_in d v) (text_in t ks) \<ge> 0.2 then Medium
         else Low)"
    unfolding run_fusion_fields by (rule fusion_level_thresholds [OF fusion_risk_double])
  then show ?thesis
    using fusion_risk_present [of a d v t ks] fusion_level_literals by auto
qed

theorem C1_fusion_label_witness:
  "risk_level (run_fusion (audio_in 0.5) (vision_in True 0.5) (text_in 0.5 [])) = Medium
   \<and> risk_level (run_fusion (audio_in 0.125) (vision_in True 0.5) (text_in 0.125 [])) = Low
   \<and> risk_level (run_fusion (audio_in 1) (vision_in False 1) (text_in 0 [])) = High"
proof -
  have 1: "fusion_risk (audio_in 0.5) (vision_in True 0.5) (text_in 0.5 []) = 0.5"
    using fusion_sum_half by (simp add: fusion_risk_present)
  have 2: "fusion_risk (audio_in 0.125) (vision_in True 0.5) (text_in 0.125 []) < 0.2"
    using fusion_sum_below_two_tenths by (simp add: fusion_risk_present)
  have 3: "0.5 < fusion_risk (audio_in 1) (vision_in False 1) (text_in 0 [])"
    using fusion_sum_one by (simp add: fusion_risk_present)
  show ?thesis
    using C1_fusion_label [where a = "0.5" and d = True and v = "0.5" and t = "0.5" and ks = "[]"]
      C1_fusion_label [where a = "0.125" and d = True and v = "0.5" and t = "0.125" and ks = "[]"]
      C1_fusion_label [where a = 1 and d = False and v = 1 and t = 0 and ks = "[]"]
      1 2 3
    by simp
qed

text \<open>
  C9. The fused risk is monotonically non-decreasing in the audio score, in the vision
  confidence (with the detected flag true) and in the text severity, the other two inputs
  being fixed. This holds for the weighted sum and for the rounded score that is returned.
\<close>

theorem C9_fusion_monotone:
  fixes a a' v v' t t' :: real
  assumes "a \<le> a'" and "v \<le> v'" and "t \<le> t'"
  shows "fusion_risk (audio_in a) (vision_in d w) (text_in s ks)
           \<le> fusion_risk (audio_in a') (vision_in d w) (text_in s ks)
    \<and> fusion_risk (audio_in b) (vision_in True v) (text_in s ks)
           \<le> fusion_risk (audio_in b) (vision_in True v') (text_in s ks)
    \<and> fusion_risk (audio_in b) (vision_in d w) (text_in t ks)
           \<le> fusion_risk (audio_in b) (vision_in d w) (text_in t' ks)
    \<and> risk_score (run_fusion (audio_in a) (vision_in d w) (text_in s ks))
           \<le> risk_score (run_fusion (audio_in a') (vision_in d w) (text_in s ks))
    \<and> risk_score (run_fusion (audio_in b) (vision_in True v) (text_in s ks))
           \<le> risk_score (run_fusion (audio_in b) (vision_in True v') (text_in s ks))
    \<and> risk_score (run_fusion (audio_in b) (vision_in d w) (text_in t ks))
           \<le> risk_score (run_fusion (audio_in b) (vision_in d w) (text_in t' ks))"
proof -
  have 1: "fusion_risk (audio_in a) (vision_in d w) (text_in s ks)
           \<le> fusion_risk (audio_in a') (vision_in d w) (text_in s ks)"
    using assms(1) by (intro fusion_risk_mono) simp_all
  have 2: "fusion_risk (audio_in b) (vision_in True v) (text_in s ks)
           \<le> fusion_risk (audio_in b) (vision_in True v') (text_in s ks)"
    using assms(2) by (intro fusion_risk_mono) simp_all
  have 3: "fusion_risk (audio_in b) (vision_in d w) (text_in t ks)
           \<le> fusion_risk (audio_in b) (vision_in d w) (text_in t' ks)"
    using assms(3) by (intro fusion_risk_mono) simp_all
  show ?thesis
    using 1 2 3 py_round_mono [OF 1] py_round_mono [OF 2] py_round_mono [OF 3]
    by (simp add: run_fusion_def)
qed

theorem C9_fusion_monotone_witness:
  "risk_score (run_fusion (audio_in 0.2) (vision_in True 0.5) (text_in 0.3 []))
     \<le> risk_score (run_fusion (audio_in 0.7) (vision_in True 0.5) (text_in 0.3 []))
   \<and> risk_score (run_fusion (audio_in 0.4) (vision_in True 0.1) (text_in 0.3 []))
     \<le> risk_score (run_fusion (audio_in 0.4) (vision_in True 0.9) (text_in 0.3 []))
   \<and> risk_score (run_fusion (audio_in 0.4) (vision_in True 0.5) (text_in 0.25 []))
     \<le> risk_score (run_fusion (audio_in 0.4) (vision_in True 0.5) (text_in 0.65 []))"
proof -
  have h: "(0.2::real) \<le> 0.7" "(0.1::real) \<le> 0.9" "(0.25::real) \<le> 0.65"
    by simp_all
  show ?thesis
    using C9_fusion_monotone [OF h, where d = True and w = "0.5" and s = "0.3" and ks = "[]"
        and b = "0.4"]
    by simp
qed




section \<open>Results about the vision adapter\<close>

text \<open>What the loop leaves in its three accumulators.\<close>

lemma vision_loop_result:
  "vision_loop a bs (det, car, dogs) =
     (det @ map (\<lambda>b. (det_label b, py_round (det_conf b) 3, py_round (area_ratio a b) 3)) bs,
      fold max (map det_conf (filter (\<lambda>b. det_label b = ''car'') bs)) car,
      dogs @ map (\<lambda>b. (det_conf b, area_ratio a b)) (filter (\<lambda>b. det_label b = ''dog'') bs))"
  by (induction bs arbitrary: det car dogs) (simp_all add: Let_def max.commute)

text \<open>
  The decision of the adapter is taken on the largest dog confidence and on the largest dog
  area ratio, each maximum over all the dog boxes.
\<close>

lemma run_vision_decision:
  assumes "0 < w * h"
  shows "\<exists>r. run_vision h w boxes = Inr r
    \<and> dog_detected r =
        vision_decision
          (max_default (map det_conf (filter (\<lambda>b. det_label b = ''dog'') boxes)))
          (max_default (map (area_ratio (w * h)) (filter (\<lambda>b. det_label b = ''dog'') boxes)))
          (fold max (map det_conf (filter (\<lambda>b. det_label b = ''car'') boxes)) 0)"
  using assms by (simp add: run_vision_def vision_loop_result Let_def comp_def)

text \<open>
  C4. The specification takes as \<open>r\<close> the area ratio of the dog detection of maximum confidence. On
  a 100 by 100 image with a dog box of confidence 0.9 that covers 1% of it and a second dog
  box of confidence 0.3 that covers half of it, the adapter answers that a dog is detected:
  it pairs the confidence 0.9 of the first box with the area ratio 0.5 of the second. The
  rule of the specification rejects this input, since the box of confidence 0.9 is below the 3% that
  a dog box must cover.
\<close>

theorem C4_vision_pairs_two_boxes:
  "run_vision 100 100 [mk_box ''dog'' 0.9 0 0 10 10, mk_box ''dog'' 0.3 0 0 100 50]
     = Inr \<lparr> dog_detected = True, dog_conf = 0.9, car_conf = 0, best_area_ratio = 0.5,
              detected = [(''dog'', 0.9, 0.01), (''dog'', 0.3, 0.5)] \<rparr>
   \<and> \<not> spec_dog_detected 100 100
         [mk_box ''dog'' 0.9 0 0 10 10, mk_box ''dog'' 0.3 0 0 100 50]"
proof
  show "run_vision 100 100 [mk_box ''dog'' 0.9 0 0 10 10, mk_box ''dog'' 0.3 0 0 100 50]
     = Inr \<lparr> dog_detected = True, dog_conf = 0.9, car_conf = 0, best_area_ratio = 0.5,
              detected = [(''dog'', 0.9, 0.01), (''dog'', 0.3, 0.5)] \<rparr>"
    by (simp add: run_vision_def mk_box_def area_ratio_def vision_decision_def Let_def
        py_round_def round_half_even_def DOG_STRONG_def DOG_GREY_def CAR_VETO_def
        MIN_AREA_RATIO_def)
  show "\<not> spec_dog_detected 100 100
         [mk_box ''dog'' 0.9 0 0 10 10, mk_box ''dog'' 0.3 0 0 100 50]"
    by (simp add: spec_dog_detected_def mk_box_def area_ratio_def Let_def)
qed

section \<open>Results about the text scorer\<close>

lemma scan_patterns_iff:
  "scan_patterns text c pats \<longleftrightarrow>
     (\<exists>pat\<in>set pats. re_search (word_pattern pat) text
        \<and> \<not> (c \<in> set symptom_concepts \<and> is_negated text (first_token pat)))"
  by (induction pats) auto

lemma set_detect_concepts:
  "set (detect_concepts text cs found) =
     set found \<union> {c. \<exists>pats. (c, pats) \<in> set cs \<and> scan_patterns text c pats}"
  by (induction "text" cs found rule: detect_concepts.induct) auto

lemma set_dedup_first: "set (dedup_first xs) = set xs"
  by (induction xs rule: dedup_first.induct) auto

lemma no_word_in_empty_text: "\<not> re_search (word_pattern pat) []"
  by (simp add: re_search_def word_pattern_def word_before_def word_after_def)

lemma text_keywords_run_text:
  "set (text_keywords (run_text note)) =
     {c. \<exists>pats. (c, pats) \<in> set concepts \<and> scan_patterns (py_lower (py_strip note)) c pats}"
proof (cases "py_lower (py_strip note) = []")
  case True
  then show ?thesis
    by (simp add: run_text_def scan_patterns_iff no_word_in_empty_text)
next
  case False
  then show ?thesis
    by (simp add: run_text_def Let_def set_dedup_first set_detect_concepts
        split: prod.splits)
qed

text \<open>
  C7. For the note "My dog has a hacking cough after daycare and is very tired" the scorer
  returns the keywords cough, lethargy and daycare, the modifier dry/hacking, and the
  severity 0.65 (0.25 + 0.20 + 0.10 for the keywords and 0.10 for the modifier).
\<close>

theorem C7_text_example:
  "run_text ''My dog has a hacking cough after daycare and is very tired''
     = \<lparr> text_keywords = [''cough'', ''lethargy'', ''daycare''],
         modifiers_detected = [''dry/hacking''],
         severity_score = 0.65,
         text_notes = ''Rule-based NLP with negation + intensity modifiers (interpretable)'' \<rparr>
   \<and> {''cough'', ''daycare'', ''lethargy''}
       \<subseteq> set (text_keywords
                  (run_text ''My dog has a hacking cough after daycare and is very tired''))
   \<and> weight_of ''cough'' + weight_of ''daycare'' + weight_of ''lethargy'' + 0.10 = 0.65"
  by code_simp

text \<open>
  C2, as the specification states it, fails: the specification suppresses a match only when that very
  occurrence follows a negation cue. In "no cough yesterday, cough today" the second
  occurrence of the word follows no cue, so the rule of the specification reports cough; the scorer
  does not, because \<^verbatim>\<open>is_negated\<close> looks for the cue and the word anywhere in the text.
\<close>

theorem C2_negation_counterexample:
  "spec_keyword (py_lower (py_strip ''no cough yesterday, cough today'')) ''cough''
   \<and> ''cough'' \<notin> set (text_keywords (run_text ''no cough yesterday, cough today''))"
  by code_simp

text \<open>
  C2, amended. For every note, a concept is among the keywords exactly when one of its
  patterns matches the lower-cased, stripped note as a whole word and, if the concept is a
  symptom-bearing one, the first word of that pattern is not negated anywhere in the note:
  no negation cue ("no", "not", "without", "doesn't", "didn't") followed by blanks and by
  that first word, ending at a word boundary, occurs at any position, at the matched
  occurrence or elsewhere. For the note "no cough, no gagging" neither cough nor gagging is
  among the keywords.
\<close>

theorem C2_negation_whole_text:
  "(concept \<in> set (text_keywords (run_text note)) \<longleftrightarrow>
      (\<exists>(c, pats)\<in>set concepts. c = concept
         \<and> (\<exists>pat\<in>set pats. re_search (word_pattern pat) (py_lower (py_strip note))
               \<and> \<not> (concept \<in> set symptom_concepts
                      \<and> is_negated (py_lower (py_strip note)) (first_token pat)))))
   \<and> ''cough'' \<notin> set (text_keywords (run_text ''no cough, no gagging''))
   \<and> ''gagging'' \<notin> set (text_keywords (run_text ''no cough, no gagging''))"
proof -
  have "text_keywords (run_text ''no cough, no gagging'') = []"
    by code_simp
  then show ?thesis
    by (auto simp: text_keywords_run_text scan_patterns_iff)
qed

theorem C2_negation_whole_text_witness:
  "''cough'' \<notin> set (text_keywords (run_text ''no cough today'')) \<and>
   ''cough'' \<in> set (text_keywords (run_text ''no coughing but he keeps hacking''))"
proof -
  have "\<not> (\<exists>(c, pats)\<in>set concepts. c = ''cough''
         \<and> (\<exists>pat\<in>set pats.
               re_search (word_pattern pat) (py_lower (py_strip ''no cough today''))
               \<and> \<not> (''cough'' \<in> set symptom_concepts
                      \<and> is_negated (py_lower (py_strip ''no cough today''))
                           (first_token pat))))"
    by code_simp
  then have 1: "''cough'' \<notin> set (text_keywords (run_text ''no cough today''))"
    using C2_negation_whole_text [of "''cough''" "''no cough today''"]
    by blast
  have "\<exists>(c, pats)\<in>set concepts. c = ''cough''
         \<and> (\<exists>pat\<in>set pats.
               re_search (word_pattern pat)
                 (py_lower (py_strip ''no coughing but he keeps hacking''))
               \<and> \<not> (''cough'' \<in> set symptom_concepts
                      \<and> is_negated (py_lower (py_strip ''no coughing but he keeps hacking''))
                           (first_token pat)))"
    by code_simp
  then have 2: "''cough'' \<in> set (text_keywords (run_text ''no coughing but he keeps hacking''))"
    using C2_negation_whole_text [of "''cough''" "''no coughing but he keeps hacking''"]
    by blast
  show ?thesis
    using 1 2 by simp
qed

section \<open>Results about the audio detector\<close>

subsection \<open>Silence\<close>

lemma map_all_zero:
  assumes "\<And>x. x \<in> set xs \<Longrightarrow> f x = (0::real)"
  shows "map f xs = replicate (length xs) 0"
  using assms by (induction xs) simp_all

lemma librosa_rms_zeros: "librosa_rms (replicate n 0) = replicate (1 + n div 1024) 0"
proof -
  have pad: "replicate 1024 (0::real) @ replicate n 0 @ replicate 1024 0 = replicate (n + 2048) 0"
    by (simp add: replicate_add [symmetric])
  have frame: "sqrt (sum_list (map (\<lambda>x. \<bar>x\<bar>\<^sup>2) (take 2048 (drop (i * 1024) (replicate (n + 2048) (0::real)))))
                 / real 2048) = 0" for i
    by (simp add: sum_list_replicate)
  have "librosa_rms (replicate n 0)
      = map (\<lambda>i. sqrt (sum_list (map (\<lambda>x. \<bar>x\<bar>\<^sup>2) (take 2048 (drop (i * 1024) (replicate (n + 2048) (0::real)))))
                 / real 2048)) [0..<1 + n div 1024]"
    unfolding librosa_rms_def frame_length_def hop_length_def Let_def
    by (simp add: pad del: upt_Suc replicate_Suc)
  also have "\<dots> = replicate (length [0..<1 + n div 1024]) 0"
    by (rule map_all_zero) (rule frame)
  finally show ?thesis
    by (simp del: replicate_Suc)
qed

lemma convolve_full_zeros:
  "np_convolve_full (replicate m 0) v = replicate (m + length v - 1) 0"
proof -
  have "(\<Sum>j\<leftarrow>[0..<m]. if j \<le> k \<and> k - j < length v then replicate m (0::real) ! j * v ! (k - j) else 0) = 0" for k
  proof -
    have "map (\<lambda>j. if j \<le> k \<and> k - j < length v then replicate m (0::real) ! j * v ! (k - j) else 0) [0..<m]
        = replicate (length [0..<m]) 0"
      by (rule map_all_zero) auto
    then show ?thesis
      by (simp add: sum_list_replicate)
  qed
  then show ?thesis
    by (simp add: np_convolve_full_def map_replicate_const)
qed

lemma convolve_same_zeros:
  assumes "0 < m" and "0 < length v"
  shows "np_convolve_same (replicate m 0) v = replicate (max m (length v)) 0"
proof -
  have len: "max m (length v) \<le> m + length v - 1 - (min m (length v) - 1) div 2"
  proof -
    have "(min m (length v) - 1) div 2 \<le> min m (length v) - 1"
      by simp
    moreover have "m + length v = max m (length v) + min m (length v)"
      by (simp add: min_def max_def)
    ultimately show ?thesis
      using assms by linarith
  qed
  have "np_convolve_same (replicate m 0) v
      = replicate (min (max m (length v)) (m + length v - 1 - (min m (length v) - 1) div 2)) 0"
    by (simp add: np_convolve_same_def convolve_full_zeros)
  with len show ?thesis
    by (simp add: min_absorb1)
qed

lemma median_zeros: "np_median (replicate k 0) = 0"
  by (auto simp: np_median_def Let_def sorted_sort_id)

lemma detect_loop_none:
  assumes "\<forall>i\<in>set idx. \<not> s ! i > thr"
  shows "detect_loop s md thr idx peaks = peaks"
  using assms by (induction idx arbitrary: peaks) (simp_all add: Let_def)

lemma detect_peaks_zeros:
  assumes "0 \<le> thr"
  shows "detect_peaks (replicate k 0) md thr = []"
  unfolding detect_peaks_def
  by (rule detect_loop_none) (use assms in auto)

lemma rms_smooth_zeros:
  "rms_smooth_of (replicate n 0) = replicate (max (1 + n div 1024) 5) 0"
  unfolding rms_smooth_of_def librosa_rms_zeros
  by (subst convolve_same_zeros) simp_all

lemma peak_indices_zeros: "peak_indices_of (replicate n 0) sr = []"
  unfolding peak_indices_of_def peaks_from_smooth_def rms_smooth_zeros Let_def
  by (simp add: median_zeros map_replicate_const detect_peaks_zeros del: replicate_Suc)

lemma audio_score_none: "audio_score 0 d = 0"
  by (simp add: audio_score_def Let_def fdiv_def fmul_def fadd_def dbl_0)

lemma py_round_0: "py_round 0 n = 0"
  by (simp add: py_round_def round_half_even_def)

lemma run_audio_silent:
  assumes "0 < sr"
  shows "run_audio (replicate n 0) sr = Inr \<lparr> cough_score = 0, events = 0, timestamps = [] \<rparr>"
  using assms by (simp add: run_audio_def peak_indices_zeros audio_score_none py_round_0 Let_def)


lemma all_zero_replicate:
  assumes "\<forall>x\<in>set y. x = (0::real)"
  shows "y = replicate (length y) 0"
  using assms by (induction y) simp_all

text \<open>
  C8. For every waveform that is not empty and whose samples are all zero, at a positive
  sample rate, the detector returns zero events, no timestamp and the score 0.
\<close>

theorem C8_silent_audio:
  assumes "y \<noteq> []" and "\<forall>x\<in>set y. x = 0" and "0 < sr"
  shows "run_audio y sr = Inr \<lparr> cough_score = 0, events = 0, timestamps = [] \<rparr>"
proof -
  have "y = replicate (length y) 0"
    using assms(2) by (rule all_zero_replicate)
  then show ?thesis
    using run_audio_silent [OF assms(3), of "length y"] by simp
qed

theorem C8_silent_audio_witness:
  "[0, 0, 0] \<noteq> ([] :: real list) \<and> set [0, 0, 0 :: real] = {0} \<and> (0::nat) < 44100
   \<and> run_audio [0, 0, 0] 44100 = Inr \<lparr> cough_score = 0, events = 0, timestamps = [] \<rparr>"
  using C8_silent_audio [of "[0, 0, 0]" 44100] by simp

text \<open>
  C5, as the specification states it, fails for the empty sample array: the detector has no check of
  its input, and on no sample at all (one frame of padding) it returns a complete result.
\<close>

theorem C5_empty_audio_counterexample:
  "run_audio [] 44100 = Inr \<lparr> cough_score = 0, events = 0, timestamps = [] \<rparr>"
  using run_audio_silent [of 44100 0] by simp

text \<open>
  C5, amended. For the empty sample array, at every positive sample rate, the detector
  signals no error: it returns the complete result of silence, with the score 0, zero
  events and no timestamp.
\<close>

theorem C5_empty_audio_returns:
  assumes "0 < sr"
  shows "run_audio [] sr = Inr \<lparr> cough_score = 0, events = 0, timestamps = [] \<rparr>"
  using run_audio_silent [OF assms, of 0] by simp

theorem C5_empty_audio_returns_witness:
  "(0::nat) < 16000
   \<and> run_audio [] 16000 = Inr \<lparr> cough_score = 0, events = 0, timestamps = [] \<rparr>"
  using C5_empty_audio_returns [of 16000] by simp

subsection \<open>The signal with two bursts\<close>

lemma length_block: "c \<le> 1024 \<Longrightarrow> length (block c) = 1024"
  by (simp add: block_def hop_length_def)

lemma sumsq_block: "sum_list (map (\<lambda>x. x\<^sup>2) (block c)) = real c"
  by (simp add: block_def sum_list_replicate)

lemma blocks_Cons: "blocks (c # cs) = block c @ blocks cs"
  by (simp add: blocks_def)

lemma blocks_Nil: "blocks [] = []"
  by (simp add: blocks_def)

lemma blocks_append: "blocks (cs @ ds) = blocks cs @ blocks ds"
  by (simp add: blocks_def)

lemma drop_blocks:
  assumes "\<forall>c\<in>set cs. c \<le> 1024"
  shows "drop (i * 1024) (blocks cs) = blocks (drop i cs)"
  using assms
proof (induction cs arbitrary: i)
  case Nil
  then show ?case by (simp add: blocks_Nil)
next
  case (Cons c cs)
  show ?case
  proof (cases i)
    case 0
    then show ?thesis by simp
  next
    case (Suc k)
    with Cons show ?thesis
      by (simp add: blocks_Cons length_block)
  qed
qed

lemma take_two_blocks:
  assumes "a \<le> 1024" and "b \<le> 1024"
  shows "take 2048 (blocks (a # b # cs)) = block a @ block b"
  using assms by (simp add: blocks_Cons length_block)

lemma zero_block: "block 0 = replicate 1024 0"
  by (simp add: block_def hop_length_def)

lemma length_blocks:
  assumes "\<forall>c\<in>set cs. c \<le> 1024"
  shows "length (blocks cs) = 1024 * length cs"
  using assms by (induction cs) (simp_all add: blocks_Nil blocks_Cons length_block)

lemma librosa_rms_blocks:
  assumes "\<forall>c\<in>set cs. c \<le> 1024"
  shows "librosa_rms (blocks cs)
    = map (\<lambda>(a, b). sqrt (real (a + b) / 2048)) (zip (0 # cs @ [0]) (cs @ [0]))"
proof -
  define ds where "ds = 0 # cs @ [0]"
  have small: "\<forall>c\<in>set ds. c \<le> 1024"
    using assms by (simp add: ds_def)
  have pad: "replicate 1024 0 @ blocks cs @ replicate 1024 0 = blocks ds"
    by (simp add: ds_def blocks_Cons blocks_append zero_block blocks_Nil)
  have nf: "1 + (length (blocks ds) - 2048) div 1024 = length cs + 1"
    using small by (simp add: length_blocks) (simp add: ds_def)
  have frame: "sqrt (sum_list (map (\<lambda>x. \<bar>x\<bar>\<^sup>2) (take 2048 (drop (i * 1024) (blocks ds)))) / real 2048)
      = sqrt (real (ds ! i + ds ! Suc i) / 2048)" if "i < length cs + 1" for i
  proof -
    have "Suc i < length ds"
      using that by (simp add: ds_def)
    then have "drop i ds = ds ! i # ds ! Suc i # drop (Suc (Suc i)) ds"
      by (simp add: Cons_nth_drop_Suc Suc_lessD)
    moreover have "ds ! i \<le> 1024" "ds ! Suc i \<le> 1024"
      using small \<open>Suc i < length ds\<close> by (simp_all add: Suc_lessD)
    ultimately have "take 2048 (drop (i * 1024) (blocks ds)) = block (ds ! i) @ block (ds ! Suc i)"
      using small by (simp add: drop_blocks take_two_blocks)
    then show ?thesis
      by (simp add: sumsq_block)
  qed
  have "librosa_rms (blocks cs)
      = map (\<lambda>i. sqrt (sum_list (map (\<lambda>x. \<bar>x\<bar>\<^sup>2) (take 2048 (drop (i * 1024) (blocks ds)))) / real 2048))
          [0..<length cs + 1]"
    unfolding librosa_rms_def frame_length_def hop_length_def Let_def
    using nf by (simp add: pad del: upt_Suc)
  also have "\<dots> = map (\<lambda>i. sqrt (real (ds ! i + ds ! Suc i) / 2048)) [0..<length cs + 1]"
    using frame by (intro map_cong) auto
  also have "\<dots> = map (\<lambda>(a, b). sqrt (real (a + b) / 2048)) (zip ds (tl ds))"
    by (rule nth_equalityI) (simp_all add: ds_def nth_tl del: upt_Suc)
  finally show ?thesis
    by (simp add: ds_def)
qed


lemma sqrt_1_1024: "sqrt (1 / 1024) = 1 / 32"
  by (rule real_sqrt_unique) (simp_all add: power2_eq_square)

lemma sqrt_9_1024: "sqrt (9 / 1024) = 3 / 32"
  by (rule real_sqrt_unique) (simp_all add: power2_eq_square)

lemma sqrt_1_64: "sqrt (1 / 64) = 1 / 8"
  by (rule real_sqrt_unique) (simp_all add: power2_eq_square)

lemma rms_two_bursts: "librosa_rms two_bursts = two_bursts_rms"
  unfolding two_bursts_def
  by (subst librosa_rms_blocks)
    (simp_all add: two_bursts_rms_def sqrt_1_1024 sqrt_9_1024 sqrt_1_64)

lemma convolve_two_bursts:
  "np_convolve_same two_bursts_rms (replicate 5 (1 / 5)) = two_bursts_smooth"
  by code_simp

lemma smooth_two_bursts: "rms_smooth_of two_bursts = two_bursts_smooth"
  by (simp only: rms_smooth_of_def rms_two_bursts convolve_two_bursts)

lemma length_two_bursts: "length two_bursts = 40960"
  unfolding two_bursts_def by (subst length_blocks) simp_all

lemma median_two_bursts: "np_median two_bursts_smooth = 0"
  by code_simp

lemma mad_two_bursts: "np_median (map (\<lambda>x. \<bar>x - 0\<bar>) two_bursts_smooth) = 0"
  by code_simp

lemma min_distance_44100: "min_distance_frames_of 44100 = 21"
  by (simp add: min_distance_frames_of_def min_event_distance_s_def hop_length_def)

lemma min_distance_8000: "min_distance_frames_of 8000 = 3"
  by (simp add: min_distance_frames_of_def min_event_distance_s_def hop_length_def)

lemma detect_two_bursts_21:
  "detect_peaks two_bursts_smooth 21 (0 + 10 * (0 + 1 / 10 ^ 9)) = [4, 25]"
  by code_simp

lemma detect_two_bursts_3:
  "detect_peaks two_bursts_smooth 3 (0 + 10 * (0 + 1 / 10 ^ 9)) = [4, 25]"
  by code_simp

lemma peaks_two_bursts_44100: "peak_indices_of two_bursts 44100 = [4, 25]"
  unfolding peak_indices_of_def peaks_from_smooth_def Let_def smooth_two_bursts
    median_two_bursts mad_two_bursts min_distance_44100
  by (simp only: try_thresholds.simps detect_two_bursts_21 Let_def) simp

lemma peaks_two_bursts_8000: "peak_indices_of two_bursts 8000 = [4, 25]"
  unfolding peak_indices_of_def peaks_from_smooth_def Let_def smooth_two_bursts
    median_two_bursts mad_two_bursts min_distance_8000
  by (simp only: try_thresholds.simps detect_two_bursts_3 Let_def) simp

lemma run_audio_two_bursts_44100:
  "run_audio two_bursts 44100
     = Inr \<lparr> cough_score = 0.216, events = 2, timestamps = [0.09, 0.58] \<rparr>"
proof -
  have ts: "map (\<lambda>p. py_round (real (p * hop_length) / real (44100::nat)) 2) [4, 25]
      = [0.09, 0.58]"
    by (simp add: hop_length_def py_round_def round_half_even_def)
  have d: "fdiv (real (length two_bursts)) (real (44100::nat)) = fdiv 40960 44100"
    by (simp add: length_two_bursts)
  have sc: "py_round (audio_score (length [0.09, 0.58 :: real])
      (fdiv (real (length two_bursts)) (real (44100::nat)))) 3 = 0.216"
    unfolding d by code_simp
  show ?thesis
    unfolding run_audio_def Let_def peaks_two_bursts_44100 ts sc by simp
qed

lemma run_audio_two_bursts_8000:
  "run_audio two_bursts 8000
     = Inr \<lparr> cough_score = 0.146, events = 2, timestamps = [0.51, 3.2] \<rparr>"
proof -
  have ts: "map (\<lambda>p. py_round (real (p * hop_length) / real (8000::nat)) 2) [4, 25]
      = [0.51, 3.2]"
    by (simp add: hop_length_def py_round_def round_half_even_def)
  have d: "fdiv (real (length two_bursts)) (real (8000::nat)) = fdiv 40960 8000"
    by (simp add: length_two_bursts)
  have sc: "py_round (audio_score (length [0.51, 3.2 :: real])
      (fdiv (real (length two_bursts)) (real (8000::nat)))) 3 = 0.146"
    unfolding d by code_simp
  show ?thesis
    unfolding run_audio_def Let_def peaks_two_bursts_8000 ts sc by simp
qed

subsection \<open>The spacing of the peaks\<close>

text \<open>
  What \<^verbatim>\<open>detect_peaks\<close> enforces is a spacing in frames: any two peaks that it returns are
  at least \<open>min_distance_frames\<close> frame indices apart.
\<close>

lemma detect_loop_spaced:
  assumes "sorted_wrt (\<lambda>a b. a + md \<le> b) peaks"
    and "\<forall>p\<in>set peaks. \<forall>i\<in>set idx. p < i"
    and "sorted_wrt (<) idx"
  shows "sorted_wrt (\<lambda>a b. a + md \<le> b) (detect_loop s md thr idx peaks)"
  using assms
proof (induction idx arbitrary: peaks)
  case Nil
  then show ?case by simp
next
  case (Cons i rest)
  have rest: "sorted_wrt (<) rest" and above: "\<forall>j\<in>set rest. i < j"
    using Cons.prems(3) by simp_all
  have keep: "sorted_wrt (\<lambda>a b. a + md \<le> b) (detect_loop s md thr rest peaks)"
    using Cons.prems by (intro Cons.IH rest) simp_all
  have add: "sorted_wrt (\<lambda>a b. a + md \<le> b) (detect_loop s md thr rest (peaks @ [i]))"
    if ok: "length peaks = 0 \<or> i - last peaks \<ge> md"
  proof (rule Cons.IH [OF _ _ rest])
    have "p + md \<le> i" if "p \<in> set peaks" for p
    proof -
      from that have ne: "peaks \<noteq> []" by auto
      then have split: "peaks = butlast peaks @ [last peaks]" by simp
      have "last peaks < i"
        using Cons.prems(2) ne by simp
      with ok ne have last_ok: "last peaks + md \<le> i" by simp
      have "p \<le> last peaks"
      proof (cases "p = last peaks")
        case False
        with that split have "p \<in> set (butlast peaks)"
          by (metis Un_iff empty_iff insert_iff list.set(1) list.set(2) set_append)
        moreover have "\<forall>x\<in>set (butlast peaks). x + md \<le> last peaks"
          using Cons.prems(1) split by (metis sorted_wrt_append list.set_intros(1))
        ultimately show ?thesis by fastforce
      qed simp
      with last_ok show ?thesis by simp
    qed
    with Cons.prems(1) show "sorted_wrt (\<lambda>a b. a + md \<le> b) (peaks @ [i])"
      by (simp add: sorted_wrt_append)
    show "\<forall>p\<in>set (peaks @ [i]). \<forall>j\<in>set rest. p < j"
      using Cons.prems(2) above by auto
  qed
  show ?case
    using keep add by (simp add: Let_def)
qed

lemma detect_peaks_spaced:
  "sorted_wrt (\<lambda>a b. a + md \<le> b) (detect_peaks s md thr)"
  unfolding detect_peaks_def by (rule detect_loop_spaced) simp_all

lemma try_thresholds_spaced:
  assumes "sorted_wrt (\<lambda>a b. a + md \<le> b) acc"
  shows "sorted_wrt (\<lambda>a b. a + md \<le> b) (try_thresholds s md thrs acc)"
  using assms by (induction thrs arbitrary: acc) (simp_all add: Let_def detect_peaks_spaced)

lemma peak_indices_spaced:
  "sorted_wrt (\<lambda>a b. a + min_distance_frames_of sr \<le> b) (peak_indices_of y sr)"
  unfolding peak_indices_of_def peaks_from_smooth_def Let_def
  by (rule try_thresholds_spaced) simp

text \<open>
  C3. The minimum distance of 0.5 s is turned into frames by truncation,
  \<^verbatim>\<open>int(0.5 * sr / 1024)\<close>, which at 44100 Hz is 21 frames, that is 0.4876 s. On the signal
  \<open>two_bursts\<close> at 44100 Hz the detector finds peaks at the frames 4 and 25 and returns the
  timestamps 0.09 and 0.58: two consecutive events less than 0.5 s apart, both before and
  after the rounding of the timestamps.
\<close>

theorem C3_events_closer_than_half_second:
  "run_audio two_bursts 44100
     = Inr \<lparr> cough_score = 0.216, events = 2, timestamps = [0.09, 0.58] \<rparr>
   \<and> peak_indices_of two_bursts 44100 = [4, 25]
   \<and> min_distance_frames_of 44100 = 21
   \<and> real (25 * hop_length) / 44100 - real (4 * hop_length) / 44100 < min_event_distance_s
   \<and> (0.58 :: real) - 0.09 < min_event_distance_s"
  using run_audio_two_bursts_44100 peaks_two_bursts_44100 min_distance_44100
  by (simp add: hop_length_def min_event_distance_s_def)

subsection \<open>The score\<close>

lemma half_fmul_le: "fmul 0.5 (min 1 a) \<le> 0.5"
proof -
  have "0.5 * min 1 a \<le> (0.5::real)"
    by simp
  then have "dbl (0.5 * min 1 a) \<le> dbl 0.5"
    by (rule dbl_mono)
  then show ?thesis
    unfolding fmul_def dbl_half .
qed

text \<open>The last \<^verbatim>\<open>min(1.0, ...)\<close> of line 159 never changes the sum.\<close>

lemma half_sum_le: "min 1 (fadd (fmul 0.5 (min 1 a)) (fmul 0.5 (min 1 b)))
    = fadd (fmul 0.5 (min 1 a)) (fmul 0.5 (min 1 b))"
proof -
  have "fmul 0.5 (min 1 a) + fmul 0.5 (min 1 b) \<le> 1"
    using half_fmul_le [of a] half_fmul_le [of b] by simp
  then have "dbl (fmul 0.5 (min 1 a) + fmul 0.5 (min 1 b)) \<le> dbl 1"
    by (rule dbl_mono)
  then have "fadd (fmul 0.5 (min 1 a)) (fmul 0.5 (min 1 b)) \<le> 1"
    unfolding fadd_def dbl_1 .
  then show ?thesis
    by (rule min_absorb2)
qed

lemma audio_score_eq:
  "audio_score n d =
     (if n < 4
      then fmul (fadd (fmul 0.5 (min 1 (fdiv (fdiv (real n)
                         (max (dbl (1 / 10 ^ 9)) (fdiv d 10))) 6)))
                      (fmul 0.5 (min 1 (fdiv (real n) 25)))) (dbl 0.4)
      else fadd (fmul 0.5 (min 1 (fdiv (fdiv (real n)
                         (max (dbl (1 / 10 ^ 9)) (fdiv d 10))) 6)))
                (fmul 0.5 (min 1 (fdiv (real n) 25))))"
  unfolding audio_score_def Let_def half_sum_le by (rule refl)

lemma guard_idle:
  assumes "1 / 10 ^ 8 \<le> d"
  shows "max (dbl (1 / 10 ^ 9)) (fdiv d 10) = fdiv d 10"
proof -
  have "1 / 10 ^ 9 \<le> d / 10"
    using assms by simp
  then have "dbl (1 / 10 ^ 9) \<le> dbl (d / 10)"
    by (rule dbl_mono)
  then show ?thesis
    unfolding fdiv_def by (rule max_absorb2)
qed

lemma spec_audio_score_eq:
  assumes "1 / 10 ^ 8 \<le> d"
  shows "spec_audio_score n d = audio_score n d"
  unfolding audio_score_eq spec_audio_score_def Let_def guard_idle [OF assms] by (rule refl)

text \<open>
  Double precision matters to the third decimal: for 3 events in 16 seconds the exact value
  of the formula is 0.0865, a tie that would round to 0.086, while the score computed in
  doubles is 0.08650000000000001 and rounds to 0.087.
\<close>

lemma audio_score_three_events:
  "audio_score 3 (fdiv 128000 8000) = dbl 0.08650000000000001"
  "py_round (audio_score 3 (fdiv 128000 8000)) 3 = 0.087"
  by (code_simp, code_simp)

lemma spec_score_two_events:
  "0.1462 < spec_audio_score 2 (dbl 5.12)" "dbl 0.146 < 0.1462"
  "fdiv 40960 8000 = dbl 5.12" "1 / 10 ^ 8 \<le> fdiv 40960 8000"
  by (code_simp, code_simp, code_simp, code_simp)

text \<open>
  C6, as the specification states it, fails: the score that is returned is rounded to three
  decimals. On \<open>two_bursts\<close> at 8000 Hz there are 2 events in 5.12 s, the formula of the
  specification gives 0.14620833..., and the detector returns 0.146.
\<close>

theorem C6_score_counterexample:
  "run_audio two_bursts 8000
     = Inr \<lparr> cough_score = 0.146, events = 2, timestamps = [0.51, 3.2] \<rparr>
   \<and> fdiv (real (length two_bursts)) 8000 = dbl 5.12
   \<and> 0.1462 < spec_audio_score 2 (dbl 5.12)
   \<and> spec_audio_score 2 (dbl 5.12) \<noteq> dbl 0.146"
proof -
  have "spec_audio_score 2 (dbl 5.12) \<noteq> dbl 0.146"
    using spec_score_two_events(1,2) by simp
  moreover have "fdiv (real (length two_bursts)) 8000 = dbl 5.12"
    unfolding length_two_bursts using spec_score_two_events(3) by simp
  ultimately show ?thesis
    using run_audio_two_bursts_8000 spec_score_two_events(1) by (intro conjI)
qed

text \<open>
  C6, amended. For every waveform at a positive sample rate, with \<open>n\<close> events detected and
  the duration \<open>d\<close> in seconds, the returned score is the value of
  \<open>0.5 min(1, (n / max(1e-9, d/10)) / 6) + 0.5 min(1, n/25)\<close>, multiplied by 0.4 when
  \<open>n < 4\<close>, all in double precision, and then rounded to three decimals. When \<open>d\<close> is at
  least \<open>1e-8\<close> seconds the guard \<open>max(1e-9, .)\<close> is idle and the score is the formula of the
  specification, in double precision, rounded to three decimals.
\<close>

theorem C6_score_rounded:
  assumes "0 < sr" and "run_audio y sr = Inr r"
  shows "cough_score r =
      py_round
        (if events r < 4
         then fmul (fadd (fmul 0.5 (min 1 (fdiv (fdiv (real (events r))
                      (max (dbl (1 / 10 ^ 9)) (fdiv (fdiv (real (length y)) (real sr)) 10))) 6)))
                    (fmul 0.5 (min 1 (fdiv (real (events r)) 25)))) (dbl 0.4)
         else fadd (fmul 0.5 (min 1 (fdiv (fdiv (real (events r))
                      (max (dbl (1 / 10 ^ 9)) (fdiv (fdiv (real (length y)) (real sr)) 10))) 6)))
                   (fmul 0.5 (min 1 (fdiv (real (events r)) 25)))) 3
    \<and> (1 / 10 ^ 8 \<le> fdiv (real (length y)) (real sr) \<longrightarrow>
         cough_score r
           = py_round (spec_audio_score (events r) (fdiv (real (length y)) (real sr))) 3)"
proof -
  have r: "cough_score r = py_round (audio_score (events r) (fdiv (real (length y)) (real sr))) 3"
    using assms by (auto simp: run_audio_def Let_def)
  have "cough_score r
      = py_round (spec_audio_score (events r) (fdiv (real (length y)) (real sr))) 3"
    if "1 / 10 ^ 8 \<le> fdiv (real (length y)) (real sr)"
    using r spec_audio_score_eq [OF that] by simp
  moreover note r [unfolded audio_score_eq]
  ultimately show ?thesis
    by blast
qed

theorem C6_score_rounded_witness:
  "(0::nat) < 8000
   \<and> run_audio two_bursts 8000
       = Inr \<lparr> cough_score = 0.146, events = 2, timestamps = [0.51, 3.2] \<rparr>
   \<and> (1 :: real) / 10 ^ 8 \<le> fdiv (real (length two_bursts)) (real (8000::nat))
   \<and> py_round (spec_audio_score 2 (fdiv (real (length two_bursts)) (real (8000::nat)))) 3
       = 0.146"
proof -
  have h: "(0::nat) < 8000"
    by simp
  have big: "(1 :: real) / 10 ^ 8 \<le> fdiv (real (length two_bursts)) (real (8000::nat))"
    unfolding length_two_bursts using spec_score_two_events(4) by simp
  have "cough_score \<lparr> cough_score = 0.146, events = 2, timestamps = [0.51, 3.2] \<rparr>
      = py_round (spec_audio_score
          (events \<lparr> cough_score = 0.146, events = 2, timestamps = [0.51, 3.2] \<rparr>)
          (fdiv (real (length two_bursts)) (real (8000::nat)))) 3"
    using C6_score_rounded [OF h run_audio_two_bursts_8000, THEN conjunct2] big by blast
  then have "py_round (spec_audio_score 2 (fdiv (real (length two_bursts)) (real (8000::nat)))) 3
      = 0.146"
    by simp
  then show ?thesis
    using h big run_audio_two_bursts_8000 by (intro conjI)
qed

end
